theory Spec2Isabelle
  imports Main "HOL-Library.Sublist" "HOL-Library.Multiset"
begin

section \<open>Data model of package feed\<close>

text \<open>
  Go strings are byte sequences, and \<open>len\<close>, slicing and indexing count bytes; a
  \<^typ>\<open>string\<close> is a list of 8-bit characters, so the model works on the same bytes.

  A \<open>time.Time\<close> holds a wall clock reading and, when it comes from \<open>time.Now()\<close>,
  a monotonic clock reading as well; the times that \<open>time.Parse\<close> returns have none. The
  wall reading is modelled by the instant it denotes, in nanoseconds since the Unix epoch, the
  monotonic reading by its nanoseconds. \<open>t.After(u)\<close> compares the monotonic readings when
  both times have one, and the instants otherwise.
\<close>

record Time =
  instant :: int
  monotonic :: "int option"

definition After :: "Time \<Rightarrow> Time \<Rightarrow> bool" where
  "After t u =
     (case (monotonic t, monotonic u) of
        (Some tm, Some um) \<Rightarrow> um < tm
      | _ \<Rightarrow> instant u < instant t)"

text \<open>A time without a monotonic reading.\<close>

definition wallTime :: "int \<Rightarrow> Time" where
  "wallTime t = \<lparr>instant = t, monotonic = None\<rparr>"

text \<open>
  Modelled from the spec: the declarations of the structs \<open>Item\<close>, \<open>Feed\<close> (with its
  nested channel) and \<open>BlogPost\<close> are in a file of the package that is not among the
  sources. The records have the fields that fetcher.go reads and writes; the
  specification names the same fields (title, link, four date variants, two author variants,
  four description variants; three item locations; the five attributes of a post).
\<close>

record Item =
  Title :: string
  Link :: string
  PubDate :: string
  Date :: string
  Published :: string
  Updated :: string
  Description :: string
  Summary :: string
  Content :: string
  Encoded :: string
  Author :: string
  Creator :: string

record Channel =
  Title :: string
  Items :: "Item list"
  Entries :: "Item list"

record Feed =
  Channel :: Channel
  Entries :: "Item list"

record BlogPost =
  Title :: string
  Link :: string
  Date :: Time
  Author :: string
  Summary :: string

section \<open>stripMarkdown\<close>

definition invalidChars :: "char list" where
  "invalidChars =
     [CHR ''*'', CHR ''_'', CHR ''#'', CHR 0x60, CHR ''>'', CHR ''<'', CHR ''['', CHR '']'',
      CHR ''('', CHR '')'', CHR ''!'', CHR ''~'', CHR ''|'', CHR ''{'', CHR ''}'', CHR ''+'']"

text \<open>
  \<open>strings.ReplaceAll(input, char, "")\<close> for a one-byte \<open>char\<close> deletes every
  occurrence of that byte.
\<close>

definition ReplaceAll_empty :: "string \<Rightarrow> char \<Rightarrow> string" where
  "ReplaceAll_empty input c = filter (\<lambda>x. x \<noteq> c) input"

text \<open>The loop of \<open>stripMarkdown\<close> over \<open>invalidChars\<close>, updating \<open>input\<close>.\<close>

fun stripLoop :: "char list \<Rightarrow> string \<Rightarrow> string" where
  "stripLoop [] input = input"
| "stripLoop (c # chars) input = stripLoop chars (ReplaceAll_empty input c)"

definition stripMarkdown :: "string \<Rightarrow> string" where
  "stripMarkdown input = stripLoop invalidChars input"

section \<open>cleanHTML\<close>

text \<open>
  \<open>tagRegex.ReplaceAllString(input, "")\<close> with the pattern \<open><[^>]*>\<close>: matches are
  found leftmost first and do not overlap. A match starts at a \<open><\<close> that has a \<open>>\<close>
  somewhere after it and ends at the first such \<open>>\<close> (the class \<open>[^>]\<close> matches every
  other byte, newlines included). A \<open><\<close> with no \<open>>\<close> after it starts no match and is
  copied.
\<close>

function stripTags :: "string \<Rightarrow> string" where
  "stripTags [] = []"
| "stripTags (c # cs) =
     (if c = CHR ''<'' \<and> CHR ''>'' \<in> set cs
      then stripTags (tl (dropWhile (\<lambda>x. x \<noteq> CHR ''>'') cs))
      else c # stripTags cs)"
  by pat_completeness auto
termination
proof (relation "measure length")
  fix c :: char and cs :: string
  have "length (tl (dropWhile (\<lambda>x. x \<noteq> CHR ''>'') cs)) \<le> length cs"
    using length_dropWhile_le [of "\<lambda>x. x \<noteq> CHR ''>''" cs] by simp
  then show "(tl (dropWhile (\<lambda>x. x \<noteq> CHR ''>'') cs), c # cs) \<in> measure length"
    by simp
qed simp_all

text \<open>
  \<open>html.UnescapeString\<close> is a function of Go's standard library. Its first statement
  returns a string that holds no \<open>&\<close> unchanged; the decoding of the entities of a string
  that holds one depends on the library's entity table and is the parameter \<open>decode\<close>.
\<close>

definition UnescapeString :: "(string \<Rightarrow> string) \<Rightarrow> string \<Rightarrow> string" where
  "UnescapeString decode s = (if CHR ''&'' \<in> set s then decode s else s)"

text \<open>The class \<open>\s\<close> of Go's regexp syntax is \<open>[\t\n\f\r ]\<close>.\<close>

definition isWs :: "char \<Rightarrow> bool" where
  "isWs c \<longleftrightarrow> c = CHR 0x09 \<or> c = CHR 0x0A \<or> c = CHR 0x0C \<or> c = CHR 0x0D \<or> c = CHR 0x20"

text \<open>
  \<open>wsRegex.ReplaceAllString(cleaned, " ")\<close> with the pattern \<open>\s+\<close>: every maximal
  run of \<open>\s\<close> bytes becomes one space.
\<close>

function collapseWs :: "string \<Rightarrow> string" where
  "collapseWs [] = []"
| "collapseWs (c # cs) =
     (if isWs c then CHR 0x20 # collapseWs (dropWhile isWs cs) else c # collapseWs cs)"
  by pat_completeness auto
termination
proof (relation "measure length")
  fix c :: char and cs :: string
  show "(dropWhile isWs cs, c # cs) \<in> measure length"
    using length_dropWhile_le [of isWs cs] by simp
qed simp_all

text \<open>
  \<open>strings.TrimSpace\<close> removes from both ends every rune for which
  \<open>unicode.IsSpace\<close> holds. On the bytes of the string these are the UTF-8 encodings of
  U+0009..U+000D, U+0020, U+0085, U+00A0, U+1680, U+2000..U+200A, U+2028, U+2029, U+202F,
  U+205F and U+3000; a byte sequence that is not valid UTF-8 decodes to U+FFFD, which is
  not a space.
\<close>

definition spaceRunes :: "string list" where
  "spaceRunes =
     [[CHR 0x09], [CHR 0x0A], [CHR 0x0B], [CHR 0x0C], [CHR 0x0D], [CHR 0x20],
      [CHR 0xC2, CHR 0x85], [CHR 0xC2, CHR 0xA0],
      [CHR 0xE1, CHR 0x9A, CHR 0x80],
      [CHR 0xE2, CHR 0x80, CHR 0x80], [CHR 0xE2, CHR 0x80, CHR 0x81],
      [CHR 0xE2, CHR 0x80, CHR 0x82], [CHR 0xE2, CHR 0x80, CHR 0x83],
      [CHR 0xE2, CHR 0x80, CHR 0x84], [CHR 0xE2, CHR 0x80, CHR 0x85],
      [CHR 0xE2, CHR 0x80, CHR 0x86], [CHR 0xE2, CHR 0x80, CHR 0x87],
      [CHR 0xE2, CHR 0x80, CHR 0x88], [CHR 0xE2, CHR 0x80, CHR 0x89],
      [CHR 0xE2, CHR 0x80, CHR 0x8A],
      [CHR 0xE2, CHR 0x80, CHR 0xA8], [CHR 0xE2, CHR 0x80, CHR 0xA9],
      [CHR 0xE2, CHR 0x80, CHR 0xAF],
      [CHR 0xE2, CHR 0x81, CHR 0x9F],
      [CHR 0xE3, CHR 0x80, CHR 0x80]]"

text \<open>
  The width in bytes of the space rune that a string starts with (ends with), and 0 when it
  starts (ends) with none.
\<close>

definition leadingSpace :: "string \<Rightarrow> nat" where
  "leadingSpace s = (case find (\<lambda>e. prefix e s) spaceRunes of None \<Rightarrow> 0 | Some e \<Rightarrow> length e)"

definition trailingSpace :: "string \<Rightarrow> nat" where
  "trailingSpace s = (case find (\<lambda>e. suffix e s) spaceRunes of None \<Rightarrow> 0 | Some e \<Rightarrow> length e)"

function TrimLeft :: "string \<Rightarrow> string" where
  "TrimLeft s = (if leadingSpace s = 0 then s else TrimLeft (drop (leadingSpace s) s))"
  by pat_completeness auto
termination
proof (relation "measure length")
  fix s :: string
  assume pos: "leadingSpace s \<noteq> 0"
  have "leadingSpace [] = 0"
    by (simp add: leadingSpace_def spaceRunes_def)
  with pos have "s \<noteq> []" by auto
  with pos show "(drop (leadingSpace s) s, s) \<in> measure length" by simp
qed simp

function TrimRight :: "string \<Rightarrow> string" where
  "TrimRight s =
     (if trailingSpace s = 0 then s else TrimRight (take (length s - trailingSpace s) s))"
  by pat_completeness auto
termination
proof (relation "measure length")
  fix s :: string
  assume pos: "trailingSpace s \<noteq> 0"
  have "trailingSpace [] = 0"
    by (simp add: trailingSpace_def spaceRunes_def)
  with pos have "s \<noteq> []" by auto
  with pos show "(take (length s - trailingSpace s) s, s) \<in> measure length" by simp
qed simp

text \<open>
  The equations of \<open>TrimLeft\<close> and \<open>TrimRight\<close> rewrite a call into an \<open>if\<close> that holds the
  next call; they are used where named.
\<close>

declare TrimLeft.simps [simp del] TrimRight.simps [simp del]

definition TrimSpace :: "string \<Rightarrow> string" where
  "TrimSpace s = TrimRight (TrimLeft s)"

text \<open>
  The run-time panics of Go that the slicing and indexing in \<open>cleanHTML\<close> can raise.
\<close>

datatype panic = SliceBoundsOutOfRange | IndexOutOfRange

text \<open>
  The truncation block of \<open>cleanHTML\<close>. \<open>cleaned[:maxLength]\<close> panics for a negative
  \<open>maxLength\<close>, and \<open>cleaned[len(cleaned)-1]\<close> panics when the slice taken is empty,
  that is for \<open>maxLength = 0\<close>.
\<close>

definition truncateEllipsis :: "string \<Rightarrow> int \<Rightarrow> panic + string" where
  "truncateEllipsis cleaned maxLength =
     (if int (length cleaned) > maxLength then
        (if maxLength < 0 then Inl SliceBoundsOutOfRange
         else let cut = take (nat maxLength) cleaned in
           if cut = [] then Inl IndexOutOfRange
           else Inr ((if last cut = CHR 0x20 \<or> last cut = CHR ''.'' then butlast cut else cut)
                     @ ''...''))
      else Inr cleaned)"

definition cleanHTML :: "(string \<Rightarrow> string) \<Rightarrow> string \<Rightarrow> int \<Rightarrow> panic + string" where
  "cleanHTML decode input maxLength =
     (case truncateEllipsis (collapseWs (UnescapeString decode (stripTags input))) maxLength of
        Inl p \<Rightarrow> Inl p
      | Inr cleaned \<Rightarrow> Inr (TrimSpace cleaned))"

text \<open>
  The Content Sanitizer of the specification, \<open>sanitize(text, maxLength)\<close>, is the
  composition that \<open>getDescription\<close> applies: \<open>stripMarkdown(cleanHTML(text, maxLength))\<close>.
\<close>

definition sanitize :: "(string \<Rightarrow> string) \<Rightarrow> string \<Rightarrow> int \<Rightarrow> panic + string" where
  "sanitize decode text maxLength =
     (case cleanHTML decode text maxLength of
        Inl p \<Rightarrow> Inl p
      | Inr cleaned \<Rightarrow> Inr (stripMarkdown cleaned))"

section \<open>getDescription and getAuthor\<close>

fun descriptionLoop :: "(string \<Rightarrow> string) \<Rightarrow> string list \<Rightarrow> panic + string" where
  "descriptionLoop decode [] = Inr ''Visit post for details.''"
| "descriptionLoop decode (candidate # candidates) =
     (if candidate \<noteq> [] then sanitize decode candidate 200
      else descriptionLoop decode candidates)"

definition getDescription :: "(string \<Rightarrow> string) \<Rightarrow> Item \<Rightarrow> panic + string" where
  "getDescription decode item =
     descriptionLoop decode [Description item, Item.Summary item, Content item, Encoded item]"

definition getAuthor :: "Item \<Rightarrow> string \<Rightarrow> string" where
  "getAuthor item channelTitle =
     (if Item.Author item \<noteq> [] then Item.Author item
      else if Creator item \<noteq> [] then Creator item
      else channelTitle)"

section \<open>parseDate\<close>

text \<open>
  The effects of the package: reading the clock with \<open>time.Now()\<close> and writing a line
  with \<open>log.Printf\<close>. The world holds the number of clock readings made so far and the
  lines logged so far; the reading that the n-th call of \<open>time.Now()\<close> returns is given
  by a function \<open>wall\<close> from outside.
\<close>

datatype fetch_error = FetchingFeed string | ReadingRes string | ParsingFeed string

datatype logline = WarnNoDate string | ErrFetching string fetch_error

record world =
  ticks :: nat
  logged :: "logline list"

definition timeNow :: "(nat \<Rightarrow> Time) \<Rightarrow> world \<Rightarrow> Time \<times> world" where
  "timeNow wall w = (wall (ticks w), w\<lparr>ticks := Suc (ticks w)\<rparr>)"

definition logPrintf :: "logline \<Rightarrow> world \<Rightarrow> world" where
  "logPrintf line w = w\<lparr>logged := logged w @ [line]\<rparr>"

text \<open>
  The layouts, with the constants \<open>time.RFC1123Z\<close>, \<open>time.RFC1123\<close>,
  \<open>time.RFC3339\<close> and \<open>time.RFC3339Nano\<close> written out.
\<close>

definition dateFormats :: "string list" where
  "dateFormats =
     [''Mon, 02 Jan 2006 15:04:05 -0700'',
      ''Mon, 02 Jan 2006 15:04:05 MST'',
      ''2006-01-02T15:04:05Z07:00'',
      ''2006-01-02T15:04:05.999999999Z07:00'',
      ''2006-01-02T15:04:05Z'',
      ''2006-01-02 15:04:05 -0700'',
      ''02 Jan 2006 15:04 -0700'',
      ''Mon, 02 Jan 2006 15:04:05 GMT'',
      ''02 Jan 2006 15:04 +0000'',
      ''2006-01-02'',
      ''January 2, 2006'']"

text \<open>
  \<open>time.Parse\<close> belongs to Go's standard library and is the parameter \<open>timeParse\<close>:
  \<open>timeParse format dateStr\<close> is \<open>Some t\<close> when the call returns \<open>t\<close> with a nil error.
  The inner loop runs over the layouts, the outer loop over the candidate strings; when the
  inner loop ends without a \<open>return\<close>, the outer loop goes on with its next candidate.
\<close>

fun formatLoop :: "(string \<Rightarrow> string \<Rightarrow> Time option) \<Rightarrow> string list \<Rightarrow> string \<Rightarrow> Time option" where
  "formatLoop timeParse [] dateStr = None"
| "formatLoop timeParse (format # formats) dateStr =
     (case timeParse format dateStr of
        Some t \<Rightarrow> Some t
      | None \<Rightarrow> formatLoop timeParse formats dateStr)"

fun candidateLoop :: "(string \<Rightarrow> string \<Rightarrow> Time option) \<Rightarrow> string list \<Rightarrow> Time option" where
  "candidateLoop timeParse [] = None"
| "candidateLoop timeParse (dateStr # dateCandidates) =
     (if dateStr = [] then candidateLoop timeParse dateCandidates
      else case formatLoop timeParse dateFormats dateStr of
             Some t \<Rightarrow> Some t
           | None \<Rightarrow> candidateLoop timeParse dateCandidates)"

definition parseDate ::
  "(string \<Rightarrow> string \<Rightarrow> Time option) \<Rightarrow> (nat \<Rightarrow> Time) \<Rightarrow> Item \<Rightarrow> world \<Rightarrow> Time \<times> world" where
  "parseDate timeParse wall item w =
     (case candidateLoop timeParse
             [PubDate item, Item.Date item, Published item, Updated item] of
        Some t \<Rightarrow> (t, w)
      | None \<Rightarrow> timeNow wall (logPrintf (WarnNoDate (Item.Title item)) w))"

section \<open>FetchFeed\<close>

text \<open>
  What the package takes from outside: \<open>time.Parse\<close>, the entity decoding of
  \<open>html.UnescapeString\<close>, the clock, \<open>http.Get\<close>, \<open>io.ReadAll\<close> on the body of
  a response, \<open>xml.Unmarshal\<close> into a \<open>Feed\<close>, and \<open>sort.Slice\<close>. A call that
  returns a non-nil error is \<open>None\<close>.
\<close>

record 'r Externals =
  timeParse :: "string \<Rightarrow> string \<Rightarrow> Time option"
  htmlDecode :: "string \<Rightarrow> string"
  wallClock :: "nat \<Rightarrow> Time"
  httpGet :: "string \<Rightarrow> 'r option"
  ioReadAll :: "'r \<Rightarrow> string option"
  xmlUnmarshal :: "string \<Rightarrow> Feed option"
  sortSlice :: "(BlogPost \<Rightarrow> BlogPost \<Rightarrow> bool) \<Rightarrow> BlogPost list \<Rightarrow> BlogPost list"

text \<open>The choice of the item sequence: RSS and Atom feeds keep their items in different places.\<close>

definition selectItems :: "Feed \<Rightarrow> Item list" where
  "selectItems feed =
     (let items = Items (Channel feed);
          items = (if length items = 0 then Channel.Entries (Channel feed) else items);
          items = (if length items = 0 then Feed.Entries feed else items)
      in items)"

text \<open>
  The loop over the items. The fields of the struct literal are evaluated in the order
  written: \<open>parseDate\<close> (which may log and read the clock), \<open>getAuthor\<close>,
  \<open>getDescription\<close>. A panic ends the program, so it ends the loop.
\<close>

fun postsLoop ::
  "'r Externals \<Rightarrow> string \<Rightarrow> Item list \<Rightarrow> world \<Rightarrow> panic + (BlogPost list \<times> world)" where
  "postsLoop X channelTitle [] w = Inr ([], w)"
| "postsLoop X channelTitle (item # items) w =
     (case parseDate (timeParse X) (wallClock X) item w of
        (date, w1) \<Rightarrow>
          (case getDescription (htmlDecode X) item of
             Inl p \<Rightarrow> Inl p
           | Inr summary \<Rightarrow>
               (case postsLoop X channelTitle items w1 of
                  Inl p \<Rightarrow> Inl p
                | Inr (posts, w2) \<Rightarrow>
                    Inr (\<lparr>Title = Item.Title item, Link = Item.Link item, Date = date,
                          Author = getAuthor item channelTitle, Summary = summary\<rparr> # posts,
                         w2))))"

text \<open>
  \<open>FetchFeed\<close> returns its pair of posts and error as a sum, together with the world
  it leaves; a panic is the outer \<open>Inl\<close>.
\<close>

definition FetchFeed ::
  "'r Externals \<Rightarrow> string \<Rightarrow> world \<Rightarrow> panic + ((fetch_error + BlogPost list) \<times> world)" where
  "FetchFeed X url w =
     (case httpGet X url of
        None \<Rightarrow> Inr (Inl (FetchingFeed url), w)
      | Some resp \<Rightarrow>
          (case ioReadAll X resp of
             None \<Rightarrow> Inr (Inl (ReadingRes url), w)
           | Some body \<Rightarrow>
               (case xmlUnmarshal X body of
                  None \<Rightarrow> Inr (Inl (ParsingFeed url), w)
                | Some feed \<Rightarrow>
                    (case postsLoop X (Channel.Title (Channel feed)) (selectItems feed) w of
                       Inl p \<Rightarrow> Inl p
                     | Inr (posts, w1) \<Rightarrow> Inr (Inr posts, w1)))))"

section \<open>FetchAllFeeds\<close>

text \<open>
  One goroutine per URL fetches a feed and, under the mutex, appends its posts to the shared
  slice; a goroutine whose fetch fails logs the error and appends nothing. The goroutines
  finish in an order that the scheduler picks: \<open>sched\<close> lists the URLs of \<open>feeds\<close> in
  that order, and the loop below runs the tasks one after the other in it. After
  \<open>wg.Wait()\<close> the slice is sorted with the comparison
  \<open>posts[i].Date.After(posts[j].Date)\<close>.
\<close>

fun collectLoop ::
  "'r Externals \<Rightarrow> string list \<Rightarrow> BlogPost list \<Rightarrow> world \<Rightarrow> panic + (BlogPost list \<times> world)" where
  "collectLoop X [] posts w = Inr (posts, w)"
| "collectLoop X (url # urls) posts w =
     (case FetchFeed X url w of
        Inl p \<Rightarrow> Inl p
      | Inr (Inl err, w1) \<Rightarrow> collectLoop X urls posts (logPrintf (ErrFetching url err) w1)
      | Inr (Inr feedPosts, w1) \<Rightarrow> collectLoop X urls (posts @ feedPosts) w1)"

definition dateAfter :: "BlogPost \<Rightarrow> BlogPost \<Rightarrow> bool" where
  "dateAfter a b \<longleftrightarrow> After (BlogPost.Date a) (BlogPost.Date b)"

definition FetchAllFeeds ::
  "'r Externals \<Rightarrow> string list \<Rightarrow> world \<Rightarrow> panic + (BlogPost list \<times> world)" where
  "FetchAllFeeds X sched w =
     (case collectLoop X sched [] w of
        Inl p \<Rightarrow> Inl p
      | Inr (posts, w1) \<Rightarrow> Inr (sortSlice X dateAfter posts, w1))"

text \<open>
  What \<open>sort.Slice\<close> promises. It rearranges the slice by swapping elements, so the
  result holds the same elements. Its comparison has to be a transitive ordering of the
  elements of the slice in the sense of package sort: irreflexive, transitive, and with
  \<open>less(a, c)\<close> false whenever \<open>less(a, b)\<close> and \<open>less(b, c)\<close> are false. Then no
  element of the result is less than one standing before it; the order of elements that
  compare equal is not fixed.
\<close>

definition transitiveOrderingOn :: "'a set \<Rightarrow> ('a \<Rightarrow> 'a \<Rightarrow> bool) \<Rightarrow> bool" where
  "transitiveOrderingOn S lt \<longleftrightarrow>
     (\<forall>a \<in> S. \<not> lt a a) \<and>
     (\<forall>a \<in> S. \<forall>b \<in> S. \<forall>c \<in> S. lt a b \<and> lt b c \<longrightarrow> lt a c) \<and>
     (\<forall>a \<in> S. \<forall>b \<in> S. \<forall>c \<in> S. \<not> lt a b \<and> \<not> lt b c \<longrightarrow> \<not> lt a c)"

definition sortsSlices :: "(('a \<Rightarrow> 'a \<Rightarrow> bool) \<Rightarrow> 'a list \<Rightarrow> 'a list) \<Rightarrow> bool" where
  "sortsSlices srt \<longleftrightarrow>
     (\<forall>lt xs. mset (srt lt xs) = mset xs \<and>
        (transitiveOrderingOn (set xs) lt \<longrightarrow>
           sorted_wrt (\<lambda>a b. \<not> lt b a) (srt lt xs)))"

text \<open>
  What \<open>sort.Slice\<close> does with a slice of at most 12 elements: the insertion sort of
  package sort, \<open>insertionSortLessFunc\<close>. It takes the elements in order and swaps each with
  the element before it as long as it is less than that element. \<open>moveBack\<close> works on the
  part already treated, held in reverse, so that its head is the element just before the
  one being placed.
\<close>

fun moveBack :: "('a \<Rightarrow> 'a \<Rightarrow> bool) \<Rightarrow> 'a \<Rightarrow> 'a list \<Rightarrow> 'a list" where
  "moveBack lt x [] = [x]"
| "moveBack lt x (y # before) =
     (if lt x y then y # moveBack lt x before else x # y # before)"

definition insertionSort :: "('a \<Rightarrow> 'a \<Rightarrow> bool) \<Rightarrow> 'a list \<Rightarrow> 'a list" where
  "insertionSort lt xs = rev (foldl (\<lambda>treated x. moveBack lt x treated) [] xs)"

section \<open>An instance of time.Parse for the date-only layout\<close>

text \<open>
  For running \<open>parseDate\<close> on concrete items: what \<open>time.Parse\<close> does with the layout
  \<open>2006-01-02\<close>. The value has to be four digits, a hyphen, two digits, a hyphen and two
  digits, with nothing after them, the month in 1..12 and the day in range for the month
  and year; the result is midnight UTC of that day, with no monotonic reading. The other
  layouts are not modelled:
  \<open>timeParse_dateOnly\<close> reports an error for them, which is what \<open>time.Parse\<close> does on the
  values it is applied to below.
\<close>

definition isDigit :: "char \<Rightarrow> bool" where
  "isDigit c \<longleftrightarrow> (48::nat) \<le> of_char c \<and> of_char c \<le> (57::nat)"

definition digitVal :: "char \<Rightarrow> int" where
  "digitVal c = int (of_char c) - 48"

definition isLeap :: "int \<Rightarrow> bool" where
  "isLeap year \<longleftrightarrow> year mod 4 = 0 \<and> (year mod 100 \<noteq> 0 \<or> year mod 400 = 0)"

definition daysIn :: "int \<Rightarrow> int \<Rightarrow> int" where
  "daysIn month year =
     (if month = 2 then (if isLeap year then 29 else 28)
      else if month = 4 \<or> month = 6 \<or> month = 9 \<or> month = 11 then 30
      else 31)"

definition daysBefore :: "int \<Rightarrow> int \<Rightarrow> int" where
  "daysBefore month year =
     [0, 31, 59, 90, 120, 151, 181, 212, 243, 273, 304, 334] ! nat (month - 1)
     + (if isLeap year \<and> 2 < month then 1 else 0)"

definition unixDate :: "int \<Rightarrow> int \<Rightarrow> int \<Rightarrow> int" where
  "unixDate year month day =
     (365 * year + (year + 3) div 4 - (year + 99) div 100 + (year + 399) div 400
      + daysBefore month year + (day - 1) - 719528) * 86400 * 1000000000"

definition parseDateOnly :: "string \<Rightarrow> Time option" where
  "parseDateOnly v =
     (if length v = 10 \<and> isDigit (v ! 0) \<and> isDigit (v ! 1) \<and> isDigit (v ! 2) \<and> isDigit (v ! 3)
         \<and> v ! 4 = CHR ''-'' \<and> isDigit (v ! 5) \<and> isDigit (v ! 6)
         \<and> v ! 7 = CHR ''-'' \<and> isDigit (v ! 8) \<and> isDigit (v ! 9)
      then
        (let year = 1000 * digitVal (v ! 0) + 100 * digitVal (v ! 1)
                    + 10 * digitVal (v ! 2) + digitVal (v ! 3);
             month = 10 * digitVal (v ! 5) + digitVal (v ! 6);
             day = 10 * digitVal (v ! 8) + digitVal (v ! 9)
         in if 1 \<le> month \<and> month \<le> 12 \<and> 1 \<le> day \<and> day \<le> daysIn month year
            then Some (wallTime (unixDate year month day)) else None)
      else None)"

definition timeParse_dateOnly :: "string \<Rightarrow> string \<Rightarrow> Time option" where
  "timeParse_dateOnly layout v = (if layout = ''2006-01-02'' then parseDateOnly v else None)"

section \<open>Predicates of the statements\<close>

text \<open>
  A text without runs of whitespace: every \<open>\s\<close> byte in it is a space, and the byte after
  it is not a \<open>\s\<close> byte.
\<close>

fun noWsRuns :: "string \<Rightarrow> bool" where
  "noWsRuns [] = True"
| "noWsRuns [c] = (isWs c \<longrightarrow> c = CHR 0x20)"
| "noWsRuns (c # d # cs) = ((isWs c \<longrightarrow> c = CHR 0x20 \<and> \<not> isWs d) \<and> noWsRuns (d # cs))"

text \<open>
  The dates of the posts agree: of any two that both carry a monotonic reading, the one with
  the later monotonic reading has the later instant.
\<close>

definition datesAgree :: "BlogPost list \<Rightarrow> bool" where
  "datesAgree posts \<longleftrightarrow>
     (\<forall>a \<in> set posts. \<forall>b \<in> set posts. \<forall>am bm.
        monotonic (BlogPost.Date a) = Some am \<and> monotonic (BlogPost.Date b) = Some bm \<longrightarrow>
          (bm < am \<longleftrightarrow> instant (BlogPost.Date b) < instant (BlogPost.Date a)))"

text \<open>
  \<open>post\<close> is what the loop of \<open>FetchFeed\<close> builds from \<open>item\<close>, its date apart: title
  and link as they are, the author from \<open>getAuthor\<close>, the summary from
  \<open>getDescription\<close>.
\<close>

definition builtFrom :: "(string \<Rightarrow> string) \<Rightarrow> string \<Rightarrow> BlogPost \<Rightarrow> Item \<Rightarrow> bool" where
  "builtFrom decode channelTitle post item \<longleftrightarrow>
     BlogPost.Title post = Item.Title item \<and> BlogPost.Link post = Item.Link item \<and>
     BlogPost.Author post = getAuthor item channelTitle \<and>
     Inr (BlogPost.Summary post) = getDescription decode item"

section \<open>Sample inputs\<close>

definition emptyItem :: Item where
  "emptyItem =
     \<lparr>Item.Title = [], Item.Link = [], PubDate = [], Item.Date = [], Published = [],
      Updated = [], Description = [], Item.Summary = [], Content = [], Encoded = [],
      Item.Author = [], Creator = []\<rparr>"

definition world0 :: world where
  "world0 = \<lparr>ticks = 0, logged = []\<rparr>"

text \<open>
  A clock that starts on 14 November 2023 and advances by one second at each reading, on the
  wall and on the monotonic side.
\<close>

definition sampleClock :: "nat \<Rightarrow> Time" where
  "sampleClock n =
     \<lparr>instant = (1700000000 + int n) * 1000000000,
      monotonic = Some ((1 + int n) * 1000000000)\<rparr>"

text \<open>
  A clock whose wall side is set back between its first two readings: the first reading is
  1 March 2023, 00:00:05 UTC, the second, one second later on the monotonic side, is
  28 February 2023, 23:59:59 UTC; from there on it advances by one second at each reading.
\<close>

definition steppedClock :: "nat \<Rightarrow> Time" where
  "steppedClock n =
     (if n = 0 then \<lparr>instant = 1677628805000000000, monotonic = Some 1000000000\<rparr>
      else \<lparr>instant = (1677628798 + int n) * 1000000000,
            monotonic = Some ((1 + int n) * 1000000000)\<rparr>)"

text \<open>
  An entity decoder that leaves every string as it is, for running the model on strings
  without \<open>&\<close>, where \<open>html.UnescapeString\<close> does not decode anything.
\<close>

definition sampleDecode :: "string \<Rightarrow> string" where
  "sampleDecode s = s"

text \<open>An item whose pubDate is not a date and whose date field is one.\<close>

definition itemTwoDates :: Item where
  "itemTwoDates = emptyItem\<lparr>PubDate := ''not a date'', Item.Date := ''2023-01-01''\<rparr>"

text \<open>
  Two feeds behind the URLs \<open>rss\<close> and \<open>atom\<close>, and a URL \<open>down\<close> that cannot be
  fetched. The RSS feed has two items under its channel; the Atom feed has one entry at its
  root, with no author, an empty channel title and a summary that is a single tag.
\<close>

definition itemJan :: Item where
  "itemJan = emptyItem\<lparr>Item.Title := ''Jan'', PubDate := ''2023-01-01''\<rparr>"

definition itemJun :: Item where
  "itemJun = emptyItem\<lparr>Item.Title := ''Jun'', PubDate := ''2023-06-01'',
     Description := ''<p>Hello *world*!</p>'', Item.Author := ''ann''\<rparr>"

definition itemBare :: Item where
  "itemBare = emptyItem\<lparr>Item.Title := ''Mar'', Updated := ''2023-03-01'',
     Item.Summary := ''<br>''\<rparr>"

definition rssFeed :: Feed where
  "rssFeed = \<lparr>Feed.Channel =
                 \<lparr>Channel.Title = ''RSS Blog'', Items = [itemJan, itemJun],
                  Channel.Entries = []\<rparr>,
               Feed.Entries = []\<rparr>"

definition atomFeed :: Feed where
  "atomFeed = \<lparr>Feed.Channel = \<lparr>Channel.Title = [], Items = [], Channel.Entries = []\<rparr>,
                Feed.Entries = [itemBare]\<rparr>"

text \<open>
  A third feed behind the URL \<open>undated\<close>: two items without any date field, then one
  dated 1 March 2023.
\<close>

definition itemFirst :: Item where
  "itemFirst = emptyItem\<lparr>Item.Title := ''first''\<rparr>"

definition itemSecond :: Item where
  "itemSecond = emptyItem\<lparr>Item.Title := ''second''\<rparr>"

definition itemThird :: Item where
  "itemThird = emptyItem\<lparr>Item.Title := ''third'', PubDate := ''2023-03-01''\<rparr>"

definition undatedFeed :: Feed where
  "undatedFeed = \<lparr>Feed.Channel =
                     \<lparr>Channel.Title = ''Undated'', Items = [itemFirst, itemSecond, itemThird],
                      Channel.Entries = []\<rparr>,
                   Feed.Entries = []\<rparr>"

definition sampleGet :: "string \<Rightarrow> string option" where
  "sampleGet url = (if url = ''down'' then None else Some url)"

definition sampleReadAll :: "string \<Rightarrow> string option" where
  "sampleReadAll resp = Some resp"

definition sampleUnmarshal :: "string \<Rightarrow> Feed option" where
  "sampleUnmarshal body =
     (if body = ''rss'' then Some rssFeed
      else if body = ''atom'' then Some atomFeed
      else if body = ''undated'' then Some undatedFeed
      else None)"

definition sampleExternals :: "string Externals" where
  "sampleExternals =
     \<lparr>timeParse = timeParse_dateOnly, htmlDecode = sampleDecode, wallClock = sampleClock,
      httpGet = sampleGet, ioReadAll = sampleReadAll, xmlUnmarshal = sampleUnmarshal,
      sortSlice = insertionSort\<rparr>"

text \<open>The same collaborators with the clock that is set back.\<close>

definition steppedExternals :: "string Externals" where
  "steppedExternals = sampleExternals\<lparr>wallClock := steppedClock\<rparr>"

text \<open>The posts that come out of the feeds.\<close>

definition postJan :: BlogPost where
  "postJan = \<lparr>Title = ''Jan'', Link = [], Date = wallTime 1672531200000000000,
              Author = ''RSS Blog'',
              Summary = ''Visit post for details.''\<rparr>"

definition postJun :: BlogPost where
  "postJun = \<lparr>Title = ''Jun'', Link = [], Date = wallTime 1685577600000000000,
              Author = ''ann'',
              Summary = ''Hello world''\<rparr>"

definition postBare :: BlogPost where
  "postBare = \<lparr>Title = ''Mar'', Link = [], Date = wallTime 1677628800000000000,
               Author = [],
               Summary = []\<rparr>"

text \<open>
  The posts of the third feed: the first two carry the readings of the clock that were made
  for them.
\<close>

definition postFirst :: "Time \<Rightarrow> BlogPost" where
  "postFirst now = \<lparr>Title = ''first'', Link = [], Date = now, Author = ''Undated'',
                    Summary = ''Visit post for details.''\<rparr>"

definition postSecond :: "Time \<Rightarrow> BlogPost" where
  "postSecond now = \<lparr>Title = ''second'', Link = [], Date = now, Author = ''Undated'',
                     Summary = ''Visit post for details.''\<rparr>"

definition postThird :: BlogPost where
  "postThird = \<lparr>Title = ''third'', Link = [], Date = wallTime 1677628800000000000,
                Author = ''Undated'', Summary = ''Visit post for details.''\<rparr>"

section \<open>Author resolution\<close>

text \<open>
  C8. \<open>getAuthor\<close> returns the item's author when that is not empty, else the item's
  creator when that is not empty, else exactly the channel title it was given; so with both
  fields empty and an empty channel title it returns the empty string.
\<close>

theorem getAuthor_chain:
  "(Item.Author item \<noteq> [] \<longrightarrow> getAuthor item channelTitle = Item.Author item) \<and>
   (Item.Author item = [] \<and> Creator item \<noteq> [] \<longrightarrow> getAuthor item channelTitle = Creator item) \<and>
   (Item.Author item = [] \<and> Creator item = [] \<longrightarrow> getAuthor item channelTitle = channelTitle) \<and>
   (Item.Author item = [] \<and> Creator item = [] \<and> channelTitle = [] \<longrightarrow>
      getAuthor item channelTitle = [])"
  by (simp add: getAuthor_def)

theorem getAuthor_chain_witness:
  "getAuthor (emptyItem\<lparr>Item.Author := ''ann'', Creator := ''bob''\<rparr>) ''Blog'' = ''ann'' \<and>
   getAuthor (emptyItem\<lparr>Creator := ''bob''\<rparr>) ''Blog'' = ''bob'' \<and>
   getAuthor emptyItem ''Blog'' = ''Blog'' \<and>
   getAuthor emptyItem [] = []"
  using getAuthor_chain [of "emptyItem\<lparr>Item.Author := ''ann'', Creator := ''bob''\<rparr>" "''Blog''"]
    getAuthor_chain [of "emptyItem\<lparr>Creator := ''bob''\<rparr>" "''Blog''"]
    getAuthor_chain [of emptyItem "''Blog''"]
    getAuthor_chain [of emptyItem "[]"]
  by (simp add: emptyItem_def)

section \<open>Date resolution\<close>

lemma map_filter_append: "List.map_filter f (xs @ ys) = List.map_filter f xs @ List.map_filter f ys"
  by (simp add: List.map_filter_def)

lemma map_filter_Pair:
  "List.map_filter (\<lambda>(d, f). P f d) (map (Pair d) fs) = List.map_filter (\<lambda>f. P f d) fs"
  by (induction fs) (simp_all add: List.map_filter_simps split: option.split)

lemma formatLoop_first:
  "formatLoop P fs d = (case List.map_filter (\<lambda>f. P f d) fs of [] \<Rightarrow> None | t # _ \<Rightarrow> Some t)"
  by (induction fs) (simp_all add: List.map_filter_simps split: option.split)

lemma candidateLoop_first:
  "candidateLoop P cs =
     (case List.map_filter (\<lambda>(d, f). P f d)
             (List.product (filter (\<lambda>d. d \<noteq> []) cs) dateFormats) of
        [] \<Rightarrow> None
      | t # _ \<Rightarrow> Some t)"
proof (induction cs)
  case Nil
  show ?case by (simp add: List.map_filter_simps)
next
  case (Cons d cs)
  show ?case
  proof (cases "d = []")
    case True
    with Cons show ?thesis by simp
  next
    case False
    with Cons show ?thesis
      by (simp add: map_filter_append map_filter_Pair formatLoop_first
               split: list.split option.split)
  qed
qed

text \<open>
  C1, as the code has it. \<open>parseDate\<close> goes through the non-empty candidates in the order
  pubDate, date, published, updated, and for each of them through the layouts in their
  order; it returns the first parse that succeeds and leaves the world as it was. A
  non-empty candidate that no layout parses does not end the search. Only when no layout
  parses any non-empty candidate does it log the warning and return the reading of the
  clock.
\<close>

theorem parseDate_first_parse:
  "parseDate parse wall item w =
     (case List.map_filter (\<lambda>(dateStr, format). parse format dateStr)
             (List.product
                (filter (\<lambda>dateStr. dateStr \<noteq> [])
                   [PubDate item, Item.Date item, Published item, Updated item])
                dateFormats) of
        [] \<Rightarrow> timeNow wall (logPrintf (WarnNoDate (Item.Title item)) w)
      | t # _ \<Rightarrow> (t, w))"
  unfolding parseDate_def candidateLoop_first
  by (cases "List.map_filter (\<lambda>(dateStr, format). parse format dateStr)
             (List.product
                (filter (\<lambda>dateStr. dateStr \<noteq> [])
                   [PubDate item, Item.Date item, Published item, Updated item])
                dateFormats)")
    (simp_all only: list.case option.case)

lemmas parseDateOnly_eval_defs =
  parseDateOnly_def isDigit_def digitVal_def daysIn_def unixDate_def daysBefore_def isLeap_def

lemma formatLoop_dateOnly:
  "formatLoop timeParse_dateOnly dateFormats v = parseDateOnly v"
  by (simp add: dateFormats_def timeParse_dateOnly_def split: option.split)

lemma parseDateOnly_not_a_date: "parseDateOnly ''not a date'' = None"
  by (simp add: parseDateOnly_def isDigit_def)

lemma parseDateOnly_sample:
  "parseDateOnly ''2023-01-01'' = Some (wallTime 1672531200000000000)"
  by (simp add: parseDateOnly_eval_defs)

text \<open>
  C1, as the specification has it, fails: the first non-empty candidate of
  \<open>itemTwoDates\<close> is its pubDate, which no layout parses, and still \<open>parseDate\<close>
  returns the parse of the date field, reads no clock and logs no warning.
\<close>

theorem parseDate_commits_counterexample:
  "PubDate itemTwoDates \<noteq> [] \<and>
   formatLoop timeParse_dateOnly dateFormats (PubDate itemTwoDates) = None \<and>
   parseDate timeParse_dateOnly sampleClock itemTwoDates world0
     = (wallTime 1672531200000000000, world0) \<and>
   parseDate timeParse_dateOnly sampleClock itemTwoDates world0
     \<noteq> timeNow sampleClock (logPrintf (WarnNoDate (Item.Title itemTwoDates)) world0)"
  by (simp add: parseDate_def itemTwoDates_def emptyItem_def formatLoop_dateOnly
        parseDateOnly_not_a_date parseDateOnly_sample timeNow_def logPrintf_def world0_def
        wallTime_def sampleClock_def)

section \<open>The sanitizer\<close>

subsection \<open>Running it on sample texts\<close>

lemmas sanitize_eval_defs =
  sanitize_def cleanHTML_def UnescapeString_def truncateEllipsis_def TrimSpace_def isWs_def
  stripMarkdown_def invalidChars_def ReplaceAll_empty_def leadingSpace_def trailingSpace_def
  spaceRunes_def sampleDecode_def TrimLeft.simps TrimRight.simps suffix_to_prefix

lemma sanitize_tag_star: "sanitize sampleDecode ''<b>*</b>'' 200 = Inr []"
  by (simp add: sanitize_eval_defs)

lemma sanitize_hello: "sanitize sampleDecode ''<p>Hello *world*!</p>'' 200 = Inr ''Hello world''"
  by (simp add: sanitize_eval_defs)

lemma sanitize_br: "sanitize sampleDecode ''<br>'' 200 = Inr []"
  by (simp add: sanitize_eval_defs)

subsection \<open>Length and reserved characters\<close>

lemma stripLoop_filter: "stripLoop cs s = filter (\<lambda>x. x \<notin> set cs) s"
proof (induction cs arbitrary: s)
  case Nil
  show ?case by simp
next
  case (Cons c cs)
  have "filter (\<lambda>x. x \<notin> set cs) (filter (\<lambda>x. x \<noteq> c) s) = filter (\<lambda>x. x \<notin> set (c # cs)) s"
    by (induction s) auto
  with Cons show ?case by (simp add: ReplaceAll_empty_def)
qed

lemma stripMarkdown_filter: "stripMarkdown s = filter (\<lambda>x. x \<notin> set invalidChars) s"
  by (simp add: stripMarkdown_def stripLoop_filter)

lemma length_stripMarkdown: "length (stripMarkdown s) \<le> length s"
  by (simp add: stripMarkdown_filter)

lemma stripMarkdown_reserved: "set (stripMarkdown s) \<inter> set invalidChars = {}"
  by (auto simp add: stripMarkdown_filter)

lemma stripMarkdown_clean: "set s \<inter> set invalidChars = {} \<Longrightarrow> stripMarkdown s = s"
  unfolding stripMarkdown_filter by (rule filter_True) auto

lemma TrimLeft_suffix: "suffix (TrimLeft s) s"
proof (induction s rule: TrimLeft.induct)
  case (1 s)
  show ?case
  proof (cases "leadingSpace s = 0")
    case True
    then show ?thesis by (simp add: TrimLeft.simps [of s])
  next
    case False
    with 1 have "suffix (TrimLeft (drop (leadingSpace s) s)) (drop (leadingSpace s) s)" by simp
    moreover have "suffix (drop (leadingSpace s) s) s" by (rule suffix_drop)
    ultimately have "suffix (TrimLeft (drop (leadingSpace s) s)) s" by (rule suffix_order.trans)
    with False show ?thesis by (simp add: TrimLeft.simps [of s])
  qed
qed

lemma TrimRight_prefix: "prefix (TrimRight s) s"
proof (induction s rule: TrimRight.induct)
  case (1 s)
  show ?case
  proof (cases "trailingSpace s = 0")
    case True
    then show ?thesis by (simp add: TrimRight.simps [of s])
  next
    case False
    with 1 have "prefix (TrimRight (take (length s - trailingSpace s) s)) (take (length s - trailingSpace s) s)"
      by simp
    moreover have "prefix (take (length s - trailingSpace s) s) s" by (rule take_is_prefix)
    ultimately have "prefix (TrimRight (take (length s - trailingSpace s) s)) s"
      by (rule prefix_order.trans)
    with False show ?thesis by (simp add: TrimRight.simps [of s])
  qed
qed

lemma length_TrimSpace: "length (TrimSpace s) \<le> length s"
proof -
  have "length (TrimRight (TrimLeft s)) \<le> length (TrimLeft s)"
    using TrimRight_prefix by (rule prefix_length_le)
  also have "\<dots> \<le> length s"
    using TrimLeft_suffix by (rule suffix_length_le)
  finally show ?thesis by (simp add: TrimSpace_def)
qed

lemma truncateEllipsis_bound:
  assumes "0 < N"
  shows "\<exists>r. truncateEllipsis s N = Inr r \<and> int (length r) \<le> N + 3"
proof (cases "int (length s) > N")
  case False
  then show ?thesis by (simp add: truncateEllipsis_def)
next
  case True
  with assms have ne: "take (nat N) s \<noteq> []" by auto
  have "length (take (nat N) s) = nat N" using True by simp
  with True assms ne show ?thesis
    by (simp add: truncateEllipsis_def Let_def)
qed

lemma cleanHTML_bound:
  assumes "0 < N"
  shows "\<exists>r. cleanHTML decode s N = Inr r \<and> int (length r) \<le> N + 3"
proof -
  obtain r where r: "truncateEllipsis (collapseWs (UnescapeString decode (stripTags s))) N = Inr r"
      and len: "int (length r) \<le> N + 3"
    using truncateEllipsis_bound [OF assms] by blast
  have "int (length (TrimSpace r)) \<le> int (length r)" using length_TrimSpace [of r] by simp
  with r len show ?thesis by (simp add: cleanHTML_def)
qed

lemma sanitize_bound:
  assumes "0 < N"
  shows "\<exists>out. sanitize decode s N = Inr out \<and> int (length out) \<le> N + 3
            \<and> set out \<inter> set invalidChars = {}"
proof -
  obtain r where r: "cleanHTML decode s N = Inr r" and len: "int (length r) \<le> N + 3"
    using cleanHTML_bound [OF assms] by blast
  have "int (length (stripMarkdown r)) \<le> int (length r)" using length_stripMarkdown [of r] by simp
  with r len show ?thesis by (simp add: sanitize_def stripMarkdown_reserved)
qed

text \<open>
  C4. With \<open>maxLength = 200\<close> the sanitizer returns, for every text and every entity
  decoder, a string of at most 200 bytes plus the length of the ellipsis, and no reserved
  markup character is left in it.
\<close>

theorem sanitize_length_and_reserved:
  "\<exists>out. sanitize decode text 200 = Inr out \<and> length out \<le> 200 + length ''...''
      \<and> set out \<inter> set invalidChars = {}"
proof -
  obtain out where "sanitize decode text 200 = Inr out" and "int (length out) \<le> 200 + 3"
      and "set out \<inter> set invalidChars = {}"
    using sanitize_bound [of 200 decode "text"] by auto
  then show ?thesis by auto
qed

theorem sanitize_length_and_reserved_witness:
  "sanitize sampleDecode ''<p>Hello *world*!</p>'' 200 = Inr ''Hello world'' \<and>
   length ''Hello world'' \<le> 200 + length ''...'' \<and>
   set ''Hello world'' \<inter> set invalidChars = {}"
  using sanitize_length_and_reserved [of sampleDecode "''<p>Hello *world*!</p>''"]
  by (simp add: sanitize_hello)

subsection \<open>Order of trimming and stripping\<close>

lemma spaceRunes_nonempty: "[] \<notin> set spaceRunes"
  by (simp add: spaceRunes_def)

lemma leadingSpace_zero_iff: "leadingSpace s = 0 \<longleftrightarrow> (\<forall>e \<in> set spaceRunes. \<not> prefix e s)"
proof (cases "find (\<lambda>e. prefix e s) spaceRunes")
  case None
  then have "\<forall>e \<in> set spaceRunes. \<not> prefix e s" by (simp add: find_None_iff)
  with None show ?thesis by (simp add: leadingSpace_def)
next
  case (Some e)
  then have "e \<in> set spaceRunes" and "prefix e s"
    by (auto simp add: find_Some_iff)
  moreover from this have "e \<noteq> []" using spaceRunes_nonempty by auto
  ultimately show ?thesis using Some by (auto simp add: leadingSpace_def)
qed

lemma trailingSpace_zero_iff: "trailingSpace s = 0 \<longleftrightarrow> (\<forall>e \<in> set spaceRunes. \<not> suffix e s)"
proof (cases "find (\<lambda>e. suffix e s) spaceRunes")
  case None
  then have "\<forall>e \<in> set spaceRunes. \<not> suffix e s" by (simp add: find_None_iff)
  with None show ?thesis by (simp add: trailingSpace_def)
next
  case (Some e)
  then have "e \<in> set spaceRunes" and "suffix e s"
    by (auto simp add: find_Some_iff)
  moreover from this have "e \<noteq> []" using spaceRunes_nonempty by auto
  ultimately show ?thesis using Some by (auto simp add: trailingSpace_def)
qed

lemma leadingSpace_TrimLeft: "leadingSpace (TrimLeft s) = 0"
proof (induction s rule: TrimLeft.induct)
  case (1 s)
  then show ?case by (cases "leadingSpace s = 0") (simp_all add: TrimLeft.simps [of s])
qed

lemma trailingSpace_TrimRight: "trailingSpace (TrimRight s) = 0"
proof (induction s rule: TrimRight.induct)
  case (1 s)
  then show ?case by (cases "trailingSpace s = 0") (simp_all add: TrimRight.simps [of s])
qed

lemma leadingSpace_prefix:
  assumes "prefix r s" and "leadingSpace s = 0"
  shows "leadingSpace r = 0"
proof -
  have "\<not> prefix e r" if "e \<in> set spaceRunes" for e
  proof
    assume "prefix e r"
    from this assms(1) have "prefix e s" by (rule prefix_order.trans)
    with assms(2) that show False by (simp add: leadingSpace_zero_iff)
  qed
  then show ?thesis by (simp add: leadingSpace_zero_iff)
qed

lemma TrimSpace_trimmed: "leadingSpace (TrimSpace s) = 0 \<and> trailingSpace (TrimSpace s) = 0"
  unfolding TrimSpace_def
  using leadingSpace_prefix [OF TrimRight_prefix leadingSpace_TrimLeft] trailingSpace_TrimRight
  by simp

lemma TrimSpace_fixed:
  assumes "leadingSpace s = 0" and "trailingSpace s = 0"
  shows "TrimSpace s = s"
  using assms by (simp add: TrimSpace_def TrimLeft.simps [of s] TrimRight.simps [of s])

text \<open>
  C3, as the code has it. The trim is the last step of \<open>cleanHTML\<close>, and
  \<open>stripMarkdown\<close> is applied to what \<open>cleanHTML\<close> returns: the text handed to the
  removal of the reserved characters starts and ends with no space rune, and the sanitized
  text is that text without the reserved characters.
\<close>

theorem cleanHTML_trims_before_strip:
  "\<exists>cleaned. cleanHTML decode text 200 = Inr cleaned
      \<and> leadingSpace cleaned = 0 \<and> trailingSpace cleaned = 0
      \<and> sanitize decode text 200 = Inr (stripMarkdown cleaned)"
proof -
  obtain r where r: "truncateEllipsis (collapseWs (UnescapeString decode (stripTags text))) 200 = Inr r"
    using truncateEllipsis_bound [of 200] by fastforce
  then have "cleanHTML decode text 200 = Inr (TrimSpace r)"
    by (simp add: cleanHTML_def)
  then show ?thesis
    using TrimSpace_trimmed [of r] by (simp add: sanitize_def)
qed

text \<open>
  C3, as the specification has it, fails: a reserved character at an end of the text keeps
  the whitespace next to it from being trimmed, and its removal leaves that whitespace at
  the end of the sanitized text.
\<close>

theorem sanitize_trimmed_counterexample:
  "sanitize sampleDecode ''* hello'' 200 = Inr '' hello'' \<and> leadingSpace '' hello'' = 1
   \<and> sanitize sampleDecode ''hello *'' 200 = Inr ''hello '' \<and> trailingSpace ''hello '' = 1"
  by (simp add: sanitize_eval_defs)

subsection \<open>Clean text\<close>

lemma stripTags_no_lt: "CHR ''<'' \<notin> set s \<Longrightarrow> stripTags s = s"
  by (induction s) auto

lemma collapseWs_noWsRuns: "noWsRuns s \<Longrightarrow> collapseWs s = s"
  by (induction s rule: noWsRuns.induct) auto

lemma truncateEllipsis_short: "int (length s) < N \<Longrightarrow> truncateEllipsis s N = Inr s"
  by (simp add: truncateEllipsis_def)

lemma sanitize_clean:
  assumes reserved: "set s \<inter> set invalidChars = {}"
    and entities: "UnescapeString decode s = s"
    and runs: "noWsRuns s"
    and ends: "leadingSpace s = 0" "trailingSpace s = 0"
    and short: "int (length s) < N"
  shows "sanitize decode s N = Inr s"
proof -
  have "CHR ''<'' \<in> set invalidChars" by (simp add: invalidChars_def)
  with reserved have "CHR ''<'' \<notin> set s" by auto
  then have "stripTags s = s" by (rule stripTags_no_lt)
  with entities runs short ends have "cleanHTML decode s N = Inr s"
    by (simp add: cleanHTML_def collapseWs_noWsRuns truncateEllipsis_short TrimSpace_fixed)
  with reserved show ?thesis by (simp add: sanitize_def stripMarkdown_clean)
qed

text \<open>
  C9. On a text that is already clean and shorter than \<open>N\<close> the sanitizer is idempotent:
  it returns the text as it is, and so does a second pass. Clean means: no reserved character (so no tag, which needs a \<open><\<close>), nothing that
  \<open>html.UnescapeString\<close> changes, no run of whitespace, no space rune at either end.
\<close>

theorem sanitize_idempotent_clean:
  assumes "set s \<inter> set invalidChars = {}"
    and "UnescapeString decode s = s"
    and "noWsRuns s"
    and "leadingSpace s = 0" and "trailingSpace s = 0"
    and "int (length s) < N"
  shows "sanitize decode s N = Inr s \<and>
         (\<exists>t. sanitize decode s N = Inr t \<and> sanitize decode t N = sanitize decode s N)"
  using sanitize_clean [OF assms] by simp

theorem sanitize_idempotent_clean_witness:
  "set ''Hello world. Fine day'' \<inter> set invalidChars = {} \<and>
   UnescapeString sampleDecode ''Hello world. Fine day'' = ''Hello world. Fine day'' \<and>
   noWsRuns ''Hello world. Fine day'' \<and>
   leadingSpace ''Hello world. Fine day'' = 0 \<and>
   trailingSpace ''Hello world. Fine day'' = 0 \<and>
   int (length ''Hello world. Fine day'') < 200 \<and>
   (\<exists>t. sanitize sampleDecode ''Hello world. Fine day'' 200 = Inr t \<and>
        sanitize sampleDecode t 200 = sanitize sampleDecode ''Hello world. Fine day'' 200)"
proof -
  have h1: "set ''Hello world. Fine day'' \<inter> set invalidChars = {}"
    by (simp add: invalidChars_def)
  have h2: "UnescapeString sampleDecode ''Hello world. Fine day'' = ''Hello world. Fine day''"
    by (simp add: UnescapeString_def)
  have h3: "noWsRuns ''Hello world. Fine day''"
    by (simp add: isWs_def)
  have h4: "leadingSpace ''Hello world. Fine day'' = 0"
    by (simp add: leadingSpace_def spaceRunes_def)
  have h5: "trailingSpace ''Hello world. Fine day'' = 0"
    by (simp add: trailingSpace_def spaceRunes_def suffix_to_prefix)
  have h6: "int (length ''Hello world. Fine day'') < 200"
    by simp
  from sanitize_idempotent_clean [OF h1 h2 h3 h4 h5 h6] h1 h2 h3 h4 h5 h6
  show ?thesis by blast
qed

section \<open>Summary resolution\<close>

text \<open>
  C5. \<open>getDescription\<close> takes the first non-empty of description, summary, content and
  encoded content, in this order, and hands it as it is to the sanitizer; when all four are
  empty the result is the placeholder itself, which goes through no sanitizing.
\<close>

theorem getDescription_priority:
  "getDescription decode item =
     (if Description item \<noteq> [] then sanitize decode (Description item) 200
      else if Item.Summary item \<noteq> [] then sanitize decode (Item.Summary item) 200
      else if Content item \<noteq> [] then sanitize decode (Content item) 200
      else if Encoded item \<noteq> [] then sanitize decode (Encoded item) 200
      else Inr ''Visit post for details.'')"
  by (simp add: getDescription_def)

theorem getDescription_priority_witness:
  "getDescription sampleDecode (emptyItem\<lparr>Content := ''<b>*</b>'', Encoded := ''x''\<rparr>) = Inr [] \<and>
   getDescription sampleDecode emptyItem = Inr ''Visit post for details.''"
  using getDescription_priority [of sampleDecode "emptyItem\<lparr>Content := ''<b>*</b>'', Encoded := ''x''\<rparr>"]
    getDescription_priority [of sampleDecode emptyItem] sanitize_tag_star
  by (simp add: emptyItem_def)

text \<open>
  C10. The placeholder stands in only for four empty fields: when the first non-empty field
  sanitizes to the empty string, the summary is the empty string and not the placeholder.
\<close>

theorem getDescription_empty_summary:
  assumes "find (\<lambda>c. c \<noteq> []) [Description item, Item.Summary item, Content item, Encoded item]
             = Some c"
    and "sanitize decode c 200 = Inr []"
  shows "getDescription decode item = Inr [] \<and>
         getDescription decode item \<noteq> Inr ''Visit post for details.''"
  using assms by (auto simp add: getDescription_def split: if_splits)

theorem getDescription_empty_summary_witness:
  "find (\<lambda>c. c \<noteq> [])
     [Description (emptyItem\<lparr>Description := ''<b>*</b>''\<rparr>),
      Item.Summary (emptyItem\<lparr>Description := ''<b>*</b>''\<rparr>),
      Content (emptyItem\<lparr>Description := ''<b>*</b>''\<rparr>),
      Encoded (emptyItem\<lparr>Description := ''<b>*</b>''\<rparr>)] = Some ''<b>*</b>'' \<and>
   sanitize sampleDecode ''<b>*</b>'' 200 = Inr [] \<and>
   getDescription sampleDecode (emptyItem\<lparr>Description := ''<b>*</b>''\<rparr>) = Inr [] \<and>
   getDescription sampleDecode (emptyItem\<lparr>Description := ''<b>*</b>''\<rparr>)
     \<noteq> Inr ''Visit post for details.''"
proof -
  have h1: "find (\<lambda>c. c \<noteq> [])
     [Description (emptyItem\<lparr>Description := ''<b>*</b>''\<rparr>),
      Item.Summary (emptyItem\<lparr>Description := ''<b>*</b>''\<rparr>),
      Content (emptyItem\<lparr>Description := ''<b>*</b>''\<rparr>),
      Encoded (emptyItem\<lparr>Description := ''<b>*</b>''\<rparr>)] = Some ''<b>*</b>''"
    by (simp add: emptyItem_def)
  show ?thesis
    using h1 sanitize_tag_star getDescription_empty_summary [OF h1 sanitize_tag_star]
    by simp
qed

section \<open>The posts of one feed\<close>

lemma getDescription_total: "\<exists>summary. getDescription decode item = Inr summary"
proof -
  have "\<exists>out. sanitize decode c 200 = Inr out" for c
    using sanitize_bound [of 200 decode c] by auto
  then show ?thesis
    by (simp add: getDescription_def)
qed

lemma postsLoop_total:
  "\<exists>posts w'. postsLoop X channelTitle items w = Inr (posts, w') \<and>
      list_all2 (builtFrom (htmlDecode X) channelTitle) posts items"
proof (induction items arbitrary: w)
  case Nil
  show ?case by simp
next
  case (Cons item items)
  obtain date w1 where d: "parseDate (timeParse X) (wallClock X) item w = (date, w1)"
    by (cases "parseDate (timeParse X) (wallClock X) item w") auto
  obtain summary where s: "getDescription (htmlDecode X) item = Inr summary"
    using getDescription_total by blast
  obtain posts w2 where p: "postsLoop X channelTitle items w1 = Inr (posts, w2)"
      and rel: "list_all2 (builtFrom (htmlDecode X) channelTitle) posts items"
    using Cons.IH [of w1] by blast
  have "builtFrom (htmlDecode X) channelTitle
          \<lparr>Title = Item.Title item, Link = Item.Link item, Date = date,
           Author = getAuthor item channelTitle, Summary = summary\<rparr> item"
    using s by (simp add: builtFrom_def)
  with d s p rel show ?case
    by simp
qed

lemma builtFrom_author:
  assumes "builtFrom decode channelTitle post item"
  shows "BlogPost.Author post = [] \<longleftrightarrow>
           Item.Author item = [] \<and> Creator item = [] \<and> channelTitle = []"
  using assms by (auto simp add: builtFrom_def getAuthor_def)

lemma builtFrom_summary:
  assumes "builtFrom decode channelTitle post item"
  shows "BlogPost.Summary post = [] \<longleftrightarrow>
           (\<exists>c. find (\<lambda>c. c \<noteq> [])
                  [Description item, Item.Summary item, Content item, Encoded item] = Some c
                \<and> sanitize decode c 200 = Inr [])"
proof -
  from assms have s: "getDescription decode item = Inr (BlogPost.Summary post)"
    by (simp add: builtFrom_def)
  show ?thesis
  proof (cases "find (\<lambda>c. c \<noteq> [])
                  [Description item, Item.Summary item, Content item, Encoded item]")
    case None
    then have "getDescription decode item = Inr ''Visit post for details.''"
      by (simp add: getDescription_def split: if_splits)
    with s None show ?thesis by auto
  next
    case (Some c)
    then have "getDescription decode item = sanitize decode c 200"
      by (auto simp add: getDescription_def split: if_splits)
    with s Some show ?thesis by auto
  qed
qed

text \<open>
  C2, as the code has it. The loop of \<open>FetchFeed\<close> builds a post from every item, and
  the author of a post is empty exactly when the item's author, the item's creator and the
  channel title are all empty; its summary is empty exactly when the first non-empty of the
  four description fields sanitizes to the empty string.
\<close>

theorem post_author_summary_empty:
  "\<exists>posts w'. postsLoop X channelTitle items w = Inr (posts, w') \<and>
     list_all2
       (\<lambda>post item.
          (BlogPost.Author post = [] \<longleftrightarrow>
             Item.Author item = [] \<and> Creator item = [] \<and> channelTitle = []) \<and>
          (BlogPost.Summary post = [] \<longleftrightarrow>
             (\<exists>c. find (\<lambda>c. c \<noteq> [])
                    [Description item, Item.Summary item, Content item, Encoded item] = Some c
                  \<and> sanitize (htmlDecode X) c 200 = Inr [])))
       posts items"
proof -
  obtain posts w' where p: "postsLoop X channelTitle items w = Inr (posts, w')"
    and rel: "list_all2 (builtFrom (htmlDecode X) channelTitle) posts items"
    using postsLoop_total by blast
  from rel have "list_all2
       (\<lambda>post item.
          (BlogPost.Author post = [] \<longleftrightarrow>
             Item.Author item = [] \<and> Creator item = [] \<and> channelTitle = []) \<and>
          (BlogPost.Summary post = [] \<longleftrightarrow>
             (\<exists>c. find (\<lambda>c. c \<noteq> [])
                    [Description item, Item.Summary item, Content item, Encoded item] = Some c
                  \<and> sanitize (htmlDecode X) c 200 = Inr [])))
       posts items"
  proof (rule list_all2_mono)
    fix post item
    assume "builtFrom (htmlDecode X) channelTitle post item"
    then show "(BlogPost.Author post = [] \<longleftrightarrow>
             Item.Author item = [] \<and> Creator item = [] \<and> channelTitle = []) \<and>
          (BlogPost.Summary post = [] \<longleftrightarrow>
             (\<exists>c. find (\<lambda>c. c \<noteq> [])
                    [Description item, Item.Summary item, Content item, Encoded item] = Some c
                  \<and> sanitize (htmlDecode X) c 200 = Inr []))"
      using builtFrom_author builtFrom_summary by blast
  qed
  with p show ?thesis by blast
qed

subsection \<open>Running the loop on the sample feeds\<close>

lemma parseDate_itemJan:
  "parseDate timeParse_dateOnly sampleClock itemJan w = (wallTime 1672531200000000000, w)"
  by (simp add: parseDate_def itemJan_def emptyItem_def formatLoop_dateOnly parseDateOnly_eval_defs)

lemma parseDate_itemJun:
  "parseDate timeParse_dateOnly sampleClock itemJun w = (wallTime 1685577600000000000, w)"
  by (simp add: parseDate_def itemJun_def emptyItem_def formatLoop_dateOnly parseDateOnly_eval_defs)

lemma parseDate_itemBare:
  "parseDate timeParse_dateOnly sampleClock itemBare w = (wallTime 1677628800000000000, w)"
  by (simp add: parseDate_def itemBare_def emptyItem_def formatLoop_dateOnly parseDateOnly_eval_defs)

lemma getDescription_itemJan: "getDescription sampleDecode itemJan = Inr ''Visit post for details.''"
  by (simp add: getDescription_def itemJan_def emptyItem_def)

lemma getDescription_itemJun: "getDescription sampleDecode itemJun = Inr ''Hello world''"
  by (simp add: getDescription_def itemJun_def emptyItem_def sanitize_hello)

lemma getDescription_itemBare: "getDescription sampleDecode itemBare = Inr []"
  by (simp add: getDescription_def itemBare_def emptyItem_def sanitize_br)

lemma postsLoop_rss:
  "postsLoop sampleExternals ''RSS Blog'' [itemJan, itemJun] w = Inr ([postJan, postJun], w)"
  by (simp add: sampleExternals_def parseDate_itemJan parseDate_itemJun getDescription_itemJan
        getDescription_itemJun postJan_def postJun_def)
    (simp add: getAuthor_def itemJan_def itemJun_def emptyItem_def)

lemma postsLoop_bare:
  "postsLoop sampleExternals [] [itemBare] w = Inr ([postBare], w)"
  by (simp add: sampleExternals_def parseDate_itemBare getDescription_itemBare postBare_def)
    (simp add: getAuthor_def itemBare_def emptyItem_def)

text \<open>
  C2, as the specification has it, fails: the entry of the Atom feed has no author and no
  creator, its channel has no title, and its summary is a single tag; the post built from it
  has an empty author and an empty summary.
\<close>

theorem post_nonempty_counterexample:
  "postsLoop sampleExternals [] [itemBare] world0 = Inr ([postBare], world0) \<and>
   BlogPost.Author postBare = [] \<and> BlogPost.Summary postBare = []"
  by (simp add: postsLoop_bare del: postsLoop.simps) (simp add: postBare_def)

subsection \<open>The location of the items\<close>

lemma selectItems_priority:
  "selectItems feed =
     (if Items (Channel feed) \<noteq> [] then Items (Channel feed)
      else if Channel.Entries (Channel feed) \<noteq> [] then Channel.Entries (Channel feed)
      else Feed.Entries feed)"
  by (simp add: selectItems_def)

lemma FetchFeed_rss: "FetchFeed sampleExternals ''rss'' w = Inr (Inr [postJan, postJun], w)"
proof -
  have "selectItems rssFeed = [itemJan, itemJun]"
    by (simp add: selectItems_def rssFeed_def)
  moreover have "Channel.Title (Channel rssFeed) = ''RSS Blog''"
    by (simp add: rssFeed_def)
  moreover have "httpGet sampleExternals ''rss'' = Some ''rss''"
    "ioReadAll sampleExternals ''rss'' = Some ''rss''"
    "xmlUnmarshal sampleExternals ''rss'' = Some rssFeed"
    by (simp_all add: sampleExternals_def sampleGet_def sampleReadAll_def sampleUnmarshal_def)
  ultimately show ?thesis
    by (simp add: FetchFeed_def postsLoop_rss del: postsLoop.simps)
qed

lemma FetchFeed_atom: "FetchFeed sampleExternals ''atom'' w = Inr (Inr [postBare], w)"
proof -
  have "selectItems atomFeed = [itemBare]"
    by (simp add: selectItems_def atomFeed_def)
  moreover have "Channel.Title (Channel atomFeed) = []"
    by (simp add: atomFeed_def)
  moreover have "httpGet sampleExternals ''atom'' = Some ''atom''"
    "ioReadAll sampleExternals ''atom'' = Some ''atom''"
    "xmlUnmarshal sampleExternals ''atom'' = Some atomFeed"
    by (simp_all add: sampleExternals_def sampleGet_def sampleReadAll_def sampleUnmarshal_def)
  ultimately show ?thesis
    by (simp add: FetchFeed_def postsLoop_bare del: postsLoop.simps)
qed

lemma FetchFeed_down: "FetchFeed sampleExternals ''down'' w = Inr (Inl (FetchingFeed ''down''), w)"
  by (simp add: FetchFeed_def sampleExternals_def sampleGet_def)

text \<open>
  C7. For a feed that was fetched and decoded, \<open>FetchFeed\<close> takes the items of the
  channel when there are any, else the entries of the channel when there are any, else the
  entries at the root, and returns one post for each item of that sequence, in order; so
  the entries of a feed that has them only at its root all become posts.
\<close>

theorem FetchFeed_item_location:
  assumes "httpGet X url = Some resp" and "ioReadAll X resp = Some body"
    and "xmlUnmarshal X body = Some feed"
  shows "selectItems feed =
           (if Items (Channel feed) \<noteq> [] then Items (Channel feed)
            else if Channel.Entries (Channel feed) \<noteq> [] then Channel.Entries (Channel feed)
            else Feed.Entries feed) \<and>
         (\<exists>posts w'. FetchFeed X url w = Inr (Inr posts, w') \<and>
            list_all2 (builtFrom (htmlDecode X) (Channel.Title (Channel feed)))
              posts (selectItems feed) \<and>
            (Items (Channel feed) = [] \<and> Channel.Entries (Channel feed) = [] \<longrightarrow>
               list_all2 (builtFrom (htmlDecode X) (Channel.Title (Channel feed)))
                 posts (Feed.Entries feed)))"
proof -
  obtain posts w' where
    p: "postsLoop X (Channel.Title (Channel feed)) (selectItems feed) w = Inr (posts, w')"
    and rel: "list_all2 (builtFrom (htmlDecode X) (Channel.Title (Channel feed)))
                posts (selectItems feed)"
    using postsLoop_total by blast
  from assms p have "FetchFeed X url w = Inr (Inr posts, w')"
    by (simp add: FetchFeed_def)
  moreover from rel have "Items (Channel feed) = [] \<and> Channel.Entries (Channel feed) = [] \<longrightarrow>
      list_all2 (builtFrom (htmlDecode X) (Channel.Title (Channel feed))) posts (Feed.Entries feed)"
    by (auto simp add: selectItems_priority)
  ultimately show ?thesis using rel selectItems_priority by blast
qed

theorem FetchFeed_item_location_witness:
  "httpGet sampleExternals ''atom'' = Some ''atom'' \<and>
   ioReadAll sampleExternals ''atom'' = Some ''atom'' \<and>
   xmlUnmarshal sampleExternals ''atom'' = Some atomFeed \<and>
   Items (Channel atomFeed) = [] \<and> Channel.Entries (Channel atomFeed) = [] \<and>
   Feed.Entries atomFeed = [itemBare] \<and>
   selectItems atomFeed = [itemBare] \<and>
   FetchFeed sampleExternals ''atom'' world0 = Inr (Inr [postBare], world0) \<and>
   list_all2 (builtFrom (htmlDecode sampleExternals) (Channel.Title (Channel atomFeed)))
     [postBare] (Feed.Entries atomFeed)"
proof -
  have h: "httpGet sampleExternals ''atom'' = Some ''atom''"
    "ioReadAll sampleExternals ''atom'' = Some ''atom''"
    "xmlUnmarshal sampleExternals ''atom'' = Some atomFeed"
    by (simp_all add: sampleExternals_def sampleGet_def sampleReadAll_def sampleUnmarshal_def)
  have e: "Items (Channel atomFeed) = []" "Channel.Entries (Channel atomFeed) = []"
    "Feed.Entries atomFeed = [itemBare]"
    by (simp_all add: atomFeed_def)
  from FetchFeed_item_location [OF h, of world0] e FetchFeed_atom [of world0] h
  show ?thesis by auto
qed

section \<open>The aggregate\<close>

lemma FetchFeed_total: "\<exists>res w'. FetchFeed X url w = Inr (res, w')"
proof (cases "httpGet X url")
  case None
  then show ?thesis by (simp add: FetchFeed_def)
next
  case (Some resp)
  note resp = this
  show ?thesis
  proof (cases "ioReadAll X resp")
    case None
    with resp show ?thesis by (simp add: FetchFeed_def)
  next
    case (Some body)
    note body = this
    show ?thesis
    proof (cases "xmlUnmarshal X body")
      case None
      with resp body show ?thesis by (simp add: FetchFeed_def)
    next
      case (Some feed)
      obtain posts w1 where
        "postsLoop X (Channel.Title (Channel feed)) (selectItems feed) w = Inr (posts, w1)"
        using postsLoop_total by blast
      with resp body Some show ?thesis by (simp add: FetchFeed_def)
    qed
  qed
qed

lemma collectLoop_total: "\<exists>all w'. collectLoop X sched posts w = Inr (all, w')"
proof (induction sched arbitrary: posts w)
  case Nil
  show ?case by simp
next
  case (Cons url urls)
  obtain res w1 where f: "FetchFeed X url w = Inr (res, w1)"
    using FetchFeed_total by blast
  show ?case
  proof (cases res)
    case (Inl err)
    with f Cons.IH [of posts "logPrintf (ErrFetching url err) w1"] show ?thesis by simp
  next
    case (Inr feedPosts)
    with f Cons.IH [of "posts @ feedPosts" w1] show ?thesis by simp
  qed
qed

lemma dateAfter_instant:
  assumes "datesAgree posts" and "a \<in> set posts" and "b \<in> set posts"
  shows "dateAfter a b \<longleftrightarrow> instant (BlogPost.Date b) < instant (BlogPost.Date a)"
proof (cases "monotonic (BlogPost.Date a)")
  case None
  then show ?thesis by (simp add: dateAfter_def After_def)
next
  case (Some am)
  note am = this
  show ?thesis
  proof (cases "monotonic (BlogPost.Date b)")
    case None
    with am show ?thesis by (simp add: dateAfter_def After_def)
  next
    case (Some bm)
    with am assms have "bm < am \<longleftrightarrow> instant (BlogPost.Date b) < instant (BlogPost.Date a)"
      unfolding datesAgree_def by blast
    with am Some show ?thesis by (simp add: dateAfter_def After_def)
  qed
qed

lemma datesAgree_transitiveOrdering:
  assumes "datesAgree posts"
  shows "transitiveOrderingOn (set posts) dateAfter"
  unfolding transitiveOrderingOn_def
  using dateAfter_instant [OF assms] by auto

text \<open>
  C6, as the code has it. Whatever the order in which the tasks finish, and whichever of them
  fail, \<open>FetchAllFeeds\<close> returns, and what it returns is a rearrangement of the posts
  collected from the feeds, provided \<open>sort.Slice\<close> sorts as package sort promises. When
  \<open>After\<close> is a transitive ordering of the collected posts, no post of the result is dated
  after a post standing before it. When the collected dates agree, the instants of the dates
  never increase from one post of the result to the next.
\<close>

theorem FetchAllFeeds_sorted:
  assumes "sortsSlices (sortSlice X)"
  shows "\<exists>collected posts w'.
           collectLoop X sched [] w = Inr (collected, w') \<and>
           FetchAllFeeds X sched w = Inr (posts, w') \<and>
           mset posts = mset collected \<and>
           (transitiveOrderingOn (set collected) dateAfter \<longrightarrow>
              sorted_wrt (\<lambda>a b. \<not> After (BlogPost.Date b) (BlogPost.Date a)) posts) \<and>
           (datesAgree collected \<longrightarrow>
              sorted_wrt (\<lambda>a b. instant (BlogPost.Date b) \<le> instant (BlogPost.Date a)) posts)"
proof -
  obtain collected w1 where c: "collectLoop X sched [] w = Inr (collected, w1)"
    using collectLoop_total by blast
  define posts where "posts = sortSlice X dateAfter collected"
  from c have f: "FetchAllFeeds X sched w = Inr (posts, w1)"
    by (simp add: FetchAllFeeds_def posts_def)
  from assms have m: "mset posts = mset collected"
    by (simp add: sortsSlices_def posts_def)
  from assms have s: "sorted_wrt (\<lambda>a b. \<not> dateAfter b a) posts"
    if "transitiveOrderingOn (set collected) dateAfter"
    using that by (simp add: sortsSlices_def posts_def)
  have s1: "sorted_wrt (\<lambda>a b. \<not> After (BlogPost.Date b) (BlogPost.Date a)) posts"
    if "transitiveOrderingOn (set collected) dateAfter"
    using s [OF that] by (simp add: dateAfter_def)
  have s2: "sorted_wrt (\<lambda>a b. instant (BlogPost.Date b) \<le> instant (BlogPost.Date a)) posts"
    if agree: "datesAgree collected"
  proof -
    from m have same: "set posts = set collected" by (rule mset_eq_setD)
    have "sorted_wrt (\<lambda>a b. \<not> dateAfter b a) posts"
      using s [OF datesAgree_transitiveOrdering [OF agree]] .
    then show ?thesis
    proof (rule sorted_wrt_mono_rel [rotated])
      fix a b
      assume "a \<in> set posts" and "b \<in> set posts" and "\<not> dateAfter b a"
      with same dateAfter_instant [OF agree, of b a]
      show "instant (BlogPost.Date b) \<le> instant (BlogPost.Date a)" by auto
    qed
  qed
  from c f m s1 s2 show ?thesis by blast
qed

subsection \<open>Insertion sort sorts as promised\<close>

lemma mset_moveBack: "mset (moveBack lt x before) = add_mset x (mset before)"
  by (induction before) simp_all

lemma set_moveBack: "set (moveBack lt x before) = insert x (set before)"
  by (induction before) auto

lemma sorted_moveBack:
  assumes ord: "transitiveOrderingOn S lt" and x: "x \<in> S"
    and "set before \<subseteq> S" and "sorted_wrt (\<lambda>a b. \<not> lt a b) before"
  shows "sorted_wrt (\<lambda>a b. \<not> lt a b) (moveBack lt x before)"
  using assms(3,4)
proof (induction before)
  case Nil
  show ?case by simp
next
  case (Cons y ys)
  then have y: "y \<in> S" and ys: "set ys \<subseteq> S" by auto
  from ord have irrefl: "\<not> lt a a" if "a \<in> S" for a
    using that unfolding transitiveOrderingOn_def by blast
  from ord have trans: "lt a c" if "a \<in> S" "b \<in> S" "c \<in> S" "lt a b" "lt b c" for a b c
    using that unfolding transitiveOrderingOn_def by blast
  from ord have negtrans: "\<not> lt a c"
    if "a \<in> S" "b \<in> S" "c \<in> S" "\<not> lt a b" "\<not> lt b c" for a b c
    using that unfolding transitiveOrderingOn_def by blast
  show ?case
  proof (cases "lt x y")
    case True
    have "\<not> lt y x"
    proof
      assume "lt y x"
      with True have "lt x x" using trans [OF x y x] by blast
      with irrefl [OF x] show False by blast
    qed
    with True Cons ys show ?thesis by (simp add: set_moveBack)
  next
    case False
    have "\<not> lt x z" if "z \<in> set ys" for z
    proof -
      from that ys have z: "z \<in> S" by auto
      from Cons.prems that have "\<not> lt y z" by simp
      with False show ?thesis using negtrans [OF x y z] by blast
    qed
    with False Cons.prems show ?thesis by simp
  qed
qed

lemma insertionSort_sorts: "sortsSlices insertionSort"
proof -
  have m: "mset (foldl (\<lambda>treated x. moveBack lt x treated) acc xs) = mset acc + mset xs"
    for lt :: "'a \<Rightarrow> 'a \<Rightarrow> bool" and acc xs
    by (induction xs arbitrary: acc) (simp_all add: mset_moveBack)
  have s: "sorted_wrt (\<lambda>a b. \<not> lt a b) (foldl (\<lambda>treated x. moveBack lt x treated) acc xs)"
    if ord: "transitiveOrderingOn S lt" and "set acc \<subseteq> S" and "set xs \<subseteq> S"
      and "sorted_wrt (\<lambda>a b. \<not> lt a b) acc"
    for lt :: "'a \<Rightarrow> 'a \<Rightarrow> bool" and S acc xs
    using that(2,3,4)
  proof (induction xs arbitrary: acc)
    case Nil
    then show ?case by simp
  next
    case (Cons x xs)
    from Cons.prems have "sorted_wrt (\<lambda>a b. \<not> lt a b) (moveBack lt x acc)"
      using sorted_moveBack [OF ord, of x acc] by simp
    moreover from Cons.prems have "set (moveBack lt x acc) \<subseteq> S"
      by (simp add: set_moveBack)
    ultimately show ?case using Cons.IH [of "moveBack lt x acc"] Cons.prems by simp
  qed
  have "sorted_wrt (\<lambda>a b. \<not> lt b a) (insertionSort lt xs)"
    if "transitiveOrderingOn (set xs) lt" for lt :: "'a \<Rightarrow> 'a \<Rightarrow> bool" and xs
    using s [OF that, of "[]" xs] by (simp add: insertionSort_def sorted_wrt_rev)
  moreover have "mset (insertionSort lt xs) = mset xs" for lt :: "'a \<Rightarrow> 'a \<Rightarrow> bool" and xs
    using m [of lt "[]" xs] by (simp add: insertionSort_def)
  ultimately show ?thesis
    unfolding sortsSlices_def by blast
qed

subsection \<open>Running the aggregate on the sample feeds\<close>

lemma parseDate_itemThird:
  "parseDate timeParse_dateOnly clock itemThird w = (wallTime 1677628800000000000, w)"
  by (simp add: parseDate_def itemThird_def emptyItem_def formatLoop_dateOnly parseDateOnly_eval_defs)

lemma parseDate_itemFirst:
  "parseDate timeParse_dateOnly clock itemFirst w
     = (clock (ticks w), w\<lparr>ticks := Suc (ticks w), logged := logged w @ [WarnNoDate ''first'']\<rparr>)"
  by (simp add: parseDate_def itemFirst_def emptyItem_def timeNow_def logPrintf_def)

lemma parseDate_itemSecond:
  "parseDate timeParse_dateOnly clock itemSecond w
     = (clock (ticks w), w\<lparr>ticks := Suc (ticks w), logged := logged w @ [WarnNoDate ''second'']\<rparr>)"
  by (simp add: parseDate_def itemSecond_def emptyItem_def timeNow_def logPrintf_def)

lemma getDescription_undated:
  "getDescription sampleDecode itemFirst = Inr ''Visit post for details.''"
  "getDescription sampleDecode itemSecond = Inr ''Visit post for details.''"
  "getDescription sampleDecode itemThird = Inr ''Visit post for details.''"
  by (simp_all add: getDescription_def itemFirst_def itemSecond_def itemThird_def emptyItem_def)

lemma postsLoop_undated:
  assumes "timeParse X = timeParse_dateOnly" and "htmlDecode X = sampleDecode"
  shows "postsLoop X ''Undated'' [itemFirst, itemSecond, itemThird] w
     = Inr ([postFirst (wallClock X (ticks w)), postSecond (wallClock X (Suc (ticks w))),
             postThird],
            w\<lparr>ticks := Suc (Suc (ticks w)),
              logged := logged w @ [WarnNoDate ''first'', WarnNoDate ''second'']\<rparr>)"
  using assms
  by (simp add: parseDate_itemFirst parseDate_itemSecond parseDate_itemThird
        getDescription_undated postFirst_def postSecond_def postThird_def)
    (simp add: getAuthor_def itemFirst_def itemSecond_def itemThird_def emptyItem_def)

lemma FetchFeed_undated:
  assumes "timeParse X = timeParse_dateOnly" and "htmlDecode X = sampleDecode"
    and "httpGet X = sampleGet" and "ioReadAll X = sampleReadAll"
    and "xmlUnmarshal X = sampleUnmarshal"
  shows "FetchFeed X ''undated'' w
     = Inr (Inr [postFirst (wallClock X (ticks w)), postSecond (wallClock X (Suc (ticks w))),
                 postThird],
            w\<lparr>ticks := Suc (Suc (ticks w)),
              logged := logged w @ [WarnNoDate ''first'', WarnNoDate ''second'']\<rparr>)"
proof -
  have "selectItems undatedFeed = [itemFirst, itemSecond, itemThird]"
    by (simp add: selectItems_def undatedFeed_def)
  moreover have "Channel.Title (Channel undatedFeed) = ''Undated''"
    by (simp add: undatedFeed_def)
  moreover have "httpGet X ''undated'' = Some ''undated''"
    "ioReadAll X ''undated'' = Some ''undated''"
    "xmlUnmarshal X ''undated'' = Some undatedFeed"
    using assms(3-5) by (simp_all add: sampleGet_def sampleReadAll_def sampleUnmarshal_def)
  ultimately show ?thesis
    by (simp add: FetchFeed_def postsLoop_undated [OF assms(1,2)] del: postsLoop.simps)
qed

lemma sampleExternals_fields:
  "timeParse sampleExternals = timeParse_dateOnly" "htmlDecode sampleExternals = sampleDecode"
  "httpGet sampleExternals = sampleGet" "ioReadAll sampleExternals = sampleReadAll"
  "xmlUnmarshal sampleExternals = sampleUnmarshal" "wallClock sampleExternals = sampleClock"
  "sortSlice sampleExternals = insertionSort"
  by (simp_all add: sampleExternals_def)

lemma steppedExternals_fields:
  "timeParse steppedExternals = timeParse_dateOnly" "htmlDecode steppedExternals = sampleDecode"
  "httpGet steppedExternals = sampleGet" "ioReadAll steppedExternals = sampleReadAll"
  "xmlUnmarshal steppedExternals = sampleUnmarshal" "wallClock steppedExternals = steppedClock"
  "sortSlice steppedExternals = insertionSort"
  by (simp_all add: steppedExternals_def sampleExternals_def)

lemma datesAgree_sample:
  "datesAgree [postJan, postJun, postFirst (sampleClock 0), postSecond (sampleClock 1), postThird]"
  by (simp add: datesAgree_def postJan_def postJun_def postFirst_def postSecond_def
        postThird_def sampleClock_def wallTime_def)

lemma collectLoop_sample:
  "collectLoop sampleExternals [''rss'', ''down'', ''undated''] [] world0
     = Inr ([postJan, postJun, postFirst (sampleClock 0), postSecond (sampleClock 1), postThird],
            \<lparr>ticks = 2,
             logged = [ErrFetching ''down'' (FetchingFeed ''down''), WarnNoDate ''first'',
                       WarnNoDate ''second'']\<rparr>)"
  by (simp add: FetchFeed_rss FetchFeed_down FetchFeed_undated [OF sampleExternals_fields(1-5)]
        sampleExternals_fields(6) logPrintf_def world0_def)

lemma insertionSort_sample:
  "insertionSort dateAfter
     [postJan, postJun, postFirst (sampleClock 0), postSecond (sampleClock 1), postThird]
     = [postSecond (sampleClock 1), postFirst (sampleClock 0), postJun, postThird, postJan]"
  by (simp add: insertionSort_def dateAfter_def After_def postJan_def postJun_def postFirst_def
        postSecond_def postThird_def sampleClock_def wallTime_def)

lemma FetchAllFeeds_sample:
  "FetchAllFeeds sampleExternals [''rss'', ''down'', ''undated''] world0
     = Inr ([postSecond (sampleClock 1), postFirst (sampleClock 0), postJun, postThird, postJan],
            \<lparr>ticks = 2,
             logged = [ErrFetching ''down'' (FetchingFeed ''down''), WarnNoDate ''first'',
                       WarnNoDate ''second'']\<rparr>)"
  by (simp only: FetchAllFeeds_def collectLoop_sample sampleExternals_fields(7)
        sum.case prod.case insertionSort_sample)

theorem FetchAllFeeds_sorted_witness:
  "sortsSlices (sortSlice sampleExternals) \<and>
   collectLoop sampleExternals [''rss'', ''down'', ''undated''] [] world0
     = Inr ([postJan, postJun, postFirst (sampleClock 0), postSecond (sampleClock 1), postThird],
            \<lparr>ticks = 2,
             logged = [ErrFetching ''down'' (FetchingFeed ''down''), WarnNoDate ''first'',
                       WarnNoDate ''second'']\<rparr>) \<and>
   datesAgree [postJan, postJun, postFirst (sampleClock 0), postSecond (sampleClock 1), postThird] \<and>
   transitiveOrderingOn
     (set [postJan, postJun, postFirst (sampleClock 0), postSecond (sampleClock 1), postThird])
     dateAfter \<and>
   FetchAllFeeds sampleExternals [''rss'', ''down'', ''undated''] world0
     = Inr ([postSecond (sampleClock 1), postFirst (sampleClock 0), postJun, postThird, postJan],
            \<lparr>ticks = 2,
             logged = [ErrFetching ''down'' (FetchingFeed ''down''), WarnNoDate ''first'',
                       WarnNoDate ''second'']\<rparr>) \<and>
   mset [postSecond (sampleClock 1), postFirst (sampleClock 0), postJun, postThird, postJan]
     = mset [postJan, postJun, postFirst (sampleClock 0), postSecond (sampleClock 1), postThird] \<and>
   sorted_wrt (\<lambda>a b. \<not> After (BlogPost.Date b) (BlogPost.Date a))
     [postSecond (sampleClock 1), postFirst (sampleClock 0), postJun, postThird, postJan] \<and>
   sorted_wrt (\<lambda>a b. instant (BlogPost.Date b) \<le> instant (BlogPost.Date a))
     [postSecond (sampleClock 1), postFirst (sampleClock 0), postJun, postThird, postJan]"
proof -
  have h: "sortsSlices (sortSlice sampleExternals)"
    by (simp add: sampleExternals_fields(7) insertionSort_sorts)
  note agree = datesAgree_sample
  note ord = datesAgree_transitiveOrdering [OF agree]
  from FetchAllFeeds_sorted [OF h, of "[''rss'', ''down'', ''undated'']" world0]
  obtain collected posts w' where
    c: "collectLoop sampleExternals [''rss'', ''down'', ''undated''] [] world0
          = Inr (collected, w')"
    and f: "FetchAllFeeds sampleExternals [''rss'', ''down'', ''undated''] world0
          = Inr (posts, w')"
    and m: "mset posts = mset collected"
    and s1: "transitiveOrderingOn (set collected) dateAfter \<longrightarrow>
          sorted_wrt (\<lambda>a b. \<not> After (BlogPost.Date b) (BlogPost.Date a)) posts"
    and s2: "datesAgree collected \<longrightarrow>
          sorted_wrt (\<lambda>a b. instant (BlogPost.Date b) \<le> instant (BlogPost.Date a)) posts"
    by blast
  from c have collected: "collected
      = [postJan, postJun, postFirst (sampleClock 0), postSecond (sampleClock 1), postThird]"
    by (simp only: collectLoop_sample sum.inject prod.inject)
  from f have posts: "posts
      = [postSecond (sampleClock 1), postFirst (sampleClock 0), postJun, postThird, postJan]"
    by (simp only: FetchAllFeeds_sample sum.inject prod.inject)
  from m s1 s2 agree ord h show ?thesis
    unfolding collected posts
    by (simp only: collectLoop_sample FetchAllFeeds_sample simp_thms)
qed

subsection \<open>A clock that is set back\<close>

lemma collectLoop_stepped:
  "collectLoop steppedExternals [''undated''] [] world0
     = Inr ([postFirst (steppedClock 0), postSecond (steppedClock 1), postThird],
            \<lparr>ticks = 2, logged = [WarnNoDate ''first'', WarnNoDate ''second'']\<rparr>)"
  by (simp add: FetchFeed_undated [OF steppedExternals_fields(1-5)] steppedExternals_fields(6)
        world0_def)

lemma insertionSort_stepped:
  "insertionSort dateAfter [postFirst (steppedClock 0), postSecond (steppedClock 1), postThird]
     = [postSecond (steppedClock 1), postFirst (steppedClock 0), postThird]"
  by (simp add: insertionSort_def dateAfter_def After_def postFirst_def postSecond_def
        postThird_def steppedClock_def wallTime_def)

text \<open>
  C6, as the specification has it, fails. Under the clock that is set back the two undated
  items get the dates of its first two readings: the second reading is later on the monotonic
  side and earlier on the wall side. With the third post dated between the two wall readings,
  the result has a post whose instant is later than that of the post before it, and its last
  post is dated after its first.
\<close>

theorem FetchAllFeeds_sorted_counterexample:
  "sortsSlices (sortSlice steppedExternals) \<and>
   FetchAllFeeds steppedExternals [''undated''] world0
     = Inr ([postSecond (steppedClock 1), postFirst (steppedClock 0), postThird],
            \<lparr>ticks = 2, logged = [WarnNoDate ''first'', WarnNoDate ''second'']\<rparr>) \<and>
   instant (BlogPost.Date (postSecond (steppedClock 1)))
     < instant (BlogPost.Date (postFirst (steppedClock 0))) \<and>
   After (BlogPost.Date postThird) (BlogPost.Date (postSecond (steppedClock 1))) \<and>
   \<not> sorted_wrt (\<lambda>a b. instant (BlogPost.Date b) \<le> instant (BlogPost.Date a))
       [postSecond (steppedClock 1), postFirst (steppedClock 0), postThird] \<and>
   \<not> sorted_wrt (\<lambda>a b. \<not> After (BlogPost.Date b) (BlogPost.Date a))
       [postSecond (steppedClock 1), postFirst (steppedClock 0), postThird]"
proof -
  have "sortsSlices (sortSlice steppedExternals)"
    by (simp add: steppedExternals_fields(7) insertionSort_sorts)
  moreover have "FetchAllFeeds steppedExternals [''undated''] world0
     = Inr ([postSecond (steppedClock 1), postFirst (steppedClock 0), postThird],
            \<lparr>ticks = 2, logged = [WarnNoDate ''first'', WarnNoDate ''second'']\<rparr>)"
    by (simp only: FetchAllFeeds_def collectLoop_stepped steppedExternals_fields(7)
          sum.case prod.case insertionSort_stepped)
  moreover have "instant (BlogPost.Date (postSecond (steppedClock 1)))
     < instant (BlogPost.Date (postFirst (steppedClock 0)))"
    "After (BlogPost.Date postThird) (BlogPost.Date (postSecond (steppedClock 1)))"
    by (simp_all add: After_def postFirst_def postSecond_def postThird_def steppedClock_def
          wallTime_def)
  ultimately show ?thesis by simp
qed

text \<open>
  The three dates are after one another in a circle, so no arrangement of the three posts is
  sorted, whatever \<open>sort.Slice\<close> does with them.
\<close>

lemma stepped_dates_cycle:
  "dateAfter (postSecond (steppedClock 1)) (postFirst (steppedClock 0))"
  "dateAfter (postFirst (steppedClock 0)) postThird"
  "dateAfter postThird (postSecond (steppedClock 1))"
  by (simp_all add: dateAfter_def After_def postFirst_def postSecond_def postThird_def
        steppedClock_def wallTime_def)

lemma stepped_no_sorted_arrangement:
  assumes "mset ps = mset [postFirst (steppedClock 0), postSecond (steppedClock 1), postThird]"
  shows "\<not> sorted_wrt (\<lambda>a b. \<not> dateAfter b a) ps"
proof
  assume sorted: "sorted_wrt (\<lambda>a b. \<not> dateAfter b a) ps"
  let ?A = "postFirst (steppedClock 0)" and ?B = "postSecond (steppedClock 1)"
  from assms have elems: "set ps = {?A, ?B, postThird}"
    using mset_eq_setD by fastforce
  then obtain x rest where ps: "ps = x # rest" by (cases ps) auto
  have irrefl: "\<not> dateAfter p p" for p
    by (simp add: dateAfter_def After_def split: option.split)
  from sorted ps have head: "\<not> dateAfter y x" if "y \<in> set rest" for y
    using that by simp
  have later: "y \<in> set rest" if "y \<in> set ps" and "dateAfter y x" for y
  proof -
    from that(2) irrefl have "y \<noteq> x" by auto
    with that(1) ps show ?thesis by simp
  qed
  from elems ps have "x = ?A \<or> x = ?B \<or> x = postThird" by auto
  then show False
    using stepped_dates_cycle head later elems by auto
qed

end
